theory Spec2Isabelle
  imports Main
begin

section \<open>Python values and exceptions\<close>

text \<open>
  The values that travel in messages: \<open>None\<close>, booleans, integers, strings, lists and
  dictionaries with string keys (the JSON-compatible objects of the wire form).
\<close>

datatype pyobj =
    PNone
  | PBool bool
  | PInt int
  | PStr string
  | PList "pyobj list"
  | PDict "(string \<times> pyobj) list"

text \<open>
  A dictionary is an association list from field names to values; \<open>map_of\<close> reads it.
\<close>

type_synonym pydict = "(string \<times> pyobj) list"

text \<open>
  The exceptions the two modules raise or meet. \<open>ValueError\<close> carries its argument:
  \<open>_load_message\<close> formats the offending dictionary into the text of the exception,
  \<open>list.remove\<close> reports the element that is not in the list.
\<close>

datatype exn =
    TypeError
  | ValueError pyobj
  | AttributeError string
  | NameError string
  | IndexError
  | PlayerTimeout
  | PlayerDisconnected
  | IllegalMoveException

section \<open>messaging/messages.py\<close>

text \<open>
  The four subclasses of \<open>BaseMessage\<close>. A \<open>Query\<close> has a fourth attribute, the channel
  used to reply: \<open>None\<close> or a reference to a channel object.
\<close>

type_synonym chan = nat

datatype message =
    Query pyobj pyobj pyobj "chan option"
  | Notification pyobj pyobj
  | Response pyobj pyobj
  | Error pyobj pyobj

text \<open>\<open>Query.__init__(self, method, params, id)\<close>: the channel starts as \<open>None\<close>.\<close>

definition Query_init :: "pyobj \<Rightarrow> pyobj \<Rightarrow> pyobj \<Rightarrow> message" where
  "Query_init method params ident = Query method params ident None"

text \<open>Assigning \<open>query.channel = c\<close> after construction.\<close>

fun set_channel :: "message \<Rightarrow> chan \<Rightarrow> message" where
  "set_channel (Query method params ident _) c = Query method params ident (Some c)"
| "set_channel m c = m"

fun is_response :: "message \<Rightarrow> bool" where
  "is_response (Query method params ident ch) = False"
| "is_response (Notification method params) = False"
| "is_response (Response result ident) = True"
| "is_response (Error err ident) = (ident \<noteq> PNone)"

fun wants_response :: "message \<Rightarrow> bool" where
  "wants_response (Query method params ident ch) = True"
| "wants_response (Notification method params) = False"
| "wants_response (Response result ident) = False"
| "wants_response (Error err ident) = False"

text \<open>The property \<open>dict\<close> of each class.\<close>

fun dict :: "message \<Rightarrow> pydict" where
  "dict (Query method params ident ch) =
     [(''method'', method), (''params'', params), (''id'', ident)]"
| "dict (Notification method params) = [(''method'', method), (''params'', params)]"
| "dict (Response result ident) = [(''result'', result), (''id'', ident)]"
| "dict (Error err ident) = [(''error'', err), (''id'', ident)]"

text \<open>
  \<open>cls(**dict)\<close>: Python binds the entries of the dictionary to the parameters of
  \<open>__init__\<close> by name and raises \<open>TypeError\<close> when a parameter has no entry or an entry
  names no parameter. None of the four constructors has a default value.
\<close>

definition unexpected_keyword :: "string list \<Rightarrow> pydict \<Rightarrow> bool" where
  "unexpected_keyword names d = list_ex (\<lambda>k. k \<notin> set names) (map fst d)"

definition Query_kwargs :: "pydict \<Rightarrow> exn + message" where
  "Query_kwargs d =
     (if unexpected_keyword [''method'', ''params'', ''id''] d then Inl TypeError
      else case (map_of d ''method'', map_of d ''params'', map_of d ''id'') of
             (Some method, Some params, Some ident) \<Rightarrow> Inr (Query_init method params ident)
           | _ \<Rightarrow> Inl TypeError)"

definition Notification_kwargs :: "pydict \<Rightarrow> exn + message" where
  "Notification_kwargs d =
     (if unexpected_keyword [''method'', ''params''] d then Inl TypeError
      else case (map_of d ''method'', map_of d ''params'') of
             (Some method, Some params) \<Rightarrow> Inr (Notification method params)
           | _ \<Rightarrow> Inl TypeError)"

definition Response_kwargs :: "pydict \<Rightarrow> exn + message" where
  "Response_kwargs d =
     (if unexpected_keyword [''result'', ''id''] d then Inl TypeError
      else case (map_of d ''result'', map_of d ''id'') of
             (Some result, Some ident) \<Rightarrow> Inr (Response result ident)
           | _ \<Rightarrow> Inl TypeError)"

definition Error_kwargs :: "pydict \<Rightarrow> exn + message" where
  "Error_kwargs d =
     (if unexpected_keyword [''error'', ''id''] d then Inl TypeError
      else case (map_of d ''error'', map_of d ''id'') of
             (Some err, Some ident) \<Rightarrow> Inr (Error err ident)
           | _ \<Rightarrow> Inl TypeError)"

text \<open>\<open>_defined_messages = [Query, Notification, Response, Error]\<close>\<close>

definition defined_messages :: "(pydict \<Rightarrow> exn + message) list" where
  "defined_messages = [Query_kwargs, Notification_kwargs, Response_kwargs, Error_kwargs]"

text \<open>
  The loop of \<open>_load_message\<close>: the first class whose constructor accepts the dictionary
  wins; \<open>TypeError\<close> moves on to the next class, any other exception leaves the loop;
  after the last class, \<open>ValueError\<close> with the dictionary.
\<close>

fun try_classes :: "(pydict \<Rightarrow> exn + message) list \<Rightarrow> pydict \<Rightarrow> exn + message" where
  "try_classes [] d = Inl (ValueError (PDict d))"
| "try_classes (cls # rest) d =
     (case cls d of
        Inr m \<Rightarrow> Inr m
      | Inl TypeError \<Rightarrow> try_classes rest d
      | Inl e \<Rightarrow> Inl e)"

definition load_message :: "pydict \<Rightarrow> exn + message" where
  "load_message d = try_classes defined_messages d"

text \<open>
  Modelled from the spec: the reply channel bound to a query is not part of these two
  files. A channel has a \<open>put\<close> method that takes a message; the channels are a store
  from channel references to the messages put so far, oldest first.
\<close>

type_synonym channels = "chan \<Rightarrow> message list"

definition put :: "chan \<Rightarrow> message \<Rightarrow> channels \<Rightarrow> channels" where
  "put c m chs = chs(c := chs c @ [m])"

text \<open>
  The methods of \<open>Query\<close>. The other classes do not define them: the attribute lookup
  raises \<open>AttributeError\<close>.
\<close>

fun response :: "message \<Rightarrow> pyobj \<Rightarrow> exn + message" where
  "response (Query method params ident ch) result = Inr (Response result ident)"
| "response m result = Inl (AttributeError ''response'')"

fun error_msg :: "message \<Rightarrow> pyobj \<Rightarrow> exn + message" where
  "error_msg (Query method params ident ch) err = Inr (Error err ident)"
| "error_msg m err = Inl (AttributeError ''error_msg'')"

text \<open>
  \<open>self.channel.put(self.response(result))\<close>: the callee \<open>self.channel.put\<close> is looked up
  first, and \<open>None\<close> has no attribute \<open>put\<close>.
\<close>

fun reply :: "message \<Rightarrow> pyobj \<Rightarrow> channels \<Rightarrow> exn + channels" where
  "reply (Query method params ident ch) result chs =
     (case ch of
        None \<Rightarrow> Inl (AttributeError ''put'')
      | Some c \<Rightarrow>
          (case response (Query method params ident ch) result of
             Inl e \<Rightarrow> Inl e
           | Inr m \<Rightarrow> Inr (put c m chs)))"
| "reply m result chs = Inl (AttributeError ''reply'')"

fun reply_error :: "message \<Rightarrow> pyobj \<Rightarrow> channels \<Rightarrow> exn + channels" where
  "reply_error (Query method params ident ch) err chs =
     (case ch of
        None \<Rightarrow> Inl (AttributeError ''put'')
      | Some c \<Rightarrow>
          (case error_msg (Query method params ident ch) err of
             Inl e \<Rightarrow> Inl e
           | Inr m \<Rightarrow> Inr (put c m chs)))"
| "reply_error m err chs = Inl (AttributeError ''reply_error'')"


section \<open>game_master.py\<close>

subsection \<open>The board, the players and the viewers\<close>

text \<open>
  Modelled from the spec: the module \<open>datamodel\<close> (the board, its bots, teams, moves and
  events) is not among the source files. A position and a move are pairs of integers;
  \<open>datamodel.stop\<close> is the move that stays in place.
\<close>

type_synonym pos = "int \<times> int"
type_synonym move = "int \<times> int"

definition stop :: move where
  "stop = (0, 0)"

text \<open>
  Modelled from the spec: an event is a movement event, a "team wins" event or a "player
  timed out" event, the last two tagged with a team index.
\<close>

datatype event =
    MovementEvent nat
  | TeamWins nat
  | TimeoutEvent nat

text \<open>
  Modelled from the spec: a bot has an index, the index of its team and a current
  position; a team has the indices of its bots; the universe has its bots, its teams and
  the rest of the board (maze, food, score), which the controller never reads.
\<close>

record bot =
  index :: nat
  team_index :: nat
  current_pos :: pos

record team =
  team_bots :: "nat list"

record 'w universe =
  bots :: "bot list"
  teams :: "team list"
  board :: 'w

text \<open>
  Modelled from the spec: what the controller calls on its collaborators.
  \<^item> \<open>get_move\<close> is \<open>player_team._get_move(bot.index, snapshot)\<close>: the player, which has a
    state of its own \<open>'p\<close>, returns a move or raises;
  \<^item> \<open>move_bot\<close> is \<open>universe.move_bot(i, move)\<close>: it returns the events and the changed
    universe, or raises and leaves the universe as it was;
  \<^item> \<open>get_legal_moves\<close> is \<open>universe.get_legal_moves(pos)\<close>: a dictionary from moves to
    positions, here the list of its items;
  \<^item> \<open>random_index\<close> is the draw inside \<open>random.choice(seq)\<close>, which returns
    \<open>seq[int(random() * len(seq))]\<close>: from the state of the generator and the length it
    gives the index and the next state;
  \<^item> \<open>observe\<close> is \<open>v.observe(current_game_time, i, snapshot, events)\<close> of viewer \<open>v\<close>:
    the call returns nothing or raises.
\<close>

record ('w, 'p) collaborators =
  get_move :: "'p \<Rightarrow> nat \<Rightarrow> 'w universe \<Rightarrow> (exn + move) \<times> 'p"
  move_bot :: "'w universe \<Rightarrow> nat \<Rightarrow> move \<Rightarrow> exn + (event list \<times> 'w universe)"
  get_legal_moves :: "'w universe \<Rightarrow> pos \<Rightarrow> (move \<times> pos) list"
  random_index :: "nat \<Rightarrow> nat \<Rightarrow> nat \<times> nat"
  observe :: "nat \<Rightarrow> nat \<Rightarrow> nat \<Rightarrow> 'w universe \<Rightarrow> event list \<Rightarrow> exn option"

text \<open>
  The history of a match, oldest entry first: the move request sent for the bot at
  position \<open>i\<close> of the bot list (with the \<open>bot.index\<close> and the snapshot handed to the
  player), the events the move resolver produced for bot \<open>i\<close>, and the call
  \<open>v.observe(current_game_time, i, snapshot, events)\<close> of viewer \<open>v\<close>.
\<close>

datatype 'w action =
    GetMove nat nat "'w universe"
  | Produced nat "event list"
  | Observe nat nat nat "'w universe" "event list"

text \<open>
  The attributes of \<open>GameMaster\<close>, and with them what the methods change outside the
  object: the state of the module \<open>random\<close> and the history. A viewer is known by its
  number.
\<close>

record ('w, 'p) game_master =
  universe :: "'w universe"
  game_time :: int
  number_bots :: nat
  player_teams :: "'p list"
  viewers :: "nat list"
  random_state :: nat
  history :: "'w action list"

text \<open>
  Modelled from the spec: \<open>TypeAwareList\<close> is not among the source files.
  \<open>events.filter_type(TimeoutEvent)\<close> keeps the events of that class, and
  \<open>TeamWins in events\<close> holds when some event is a \<open>TeamWins\<close> event.
\<close>

fun is_TimeoutEvent :: "event \<Rightarrow> bool" where
  "is_TimeoutEvent (TimeoutEvent t) = True"
| "is_TimeoutEvent e = False"

fun is_TeamWins :: "event \<Rightarrow> bool" where
  "is_TeamWins (TeamWins t) = True"
| "is_TeamWins e = False"

definition filter_type :: "(event \<Rightarrow> bool) \<Rightarrow> event list \<Rightarrow> event list" where
  "filter_type cls events = filter cls events"

definition contains_type :: "(event \<Rightarrow> bool) \<Rightarrow> event list \<Rightarrow> bool" where
  "contains_type cls events = list_ex cls events"

subsection \<open>The move resolver: the \<open>try\<close> statement of \<open>play_round\<close>\<close>

text \<open>
  Lines 107 and 108, the body of \<open>try\<close>: ask the player for a move, then apply it. The
  player keeps the state it reached even when it raises.
\<close>

definition try_body ::
  "('w, 'p) collaborators \<Rightarrow> nat \<Rightarrow> bot \<Rightarrow> ('w, 'p) game_master
   \<Rightarrow> (exn + event list) \<times> ('w, 'p) game_master" where
  "try_body ops i b gm =
     (case get_move ops (player_teams gm ! team_index b) (index b) (universe gm) of
        (answer, p') \<Rightarrow>
          (let gm1 = gm\<lparr>player_teams := (player_teams gm)[team_index b := p'],
                         history := history gm @ [GetMove i (index b) (universe gm)]\<rparr>
           in case answer of
                Inl e \<Rightarrow> (Inl e, gm1)
              | Inr move \<Rightarrow>
                  (case move_bot ops (universe gm1) i move of
                     Inl e \<Rightarrow> (Inl e, gm1)
                   | Inr (events, u') \<Rightarrow> (Inr events, gm1\<lparr>universe := u'\<rparr>))))"

text \<open>\<open>random.choice(moves)\<close>: the element at the drawn index.\<close>

definition choice :: "('w, 'p) collaborators \<Rightarrow> nat \<Rightarrow> 'a list \<Rightarrow> (exn + 'a) \<times> nat" where
  "choice ops st seq =
     (case random_index ops st (length seq) of
        (k, st') \<Rightarrow> (if k < length seq then Inr (seq ! k) else Inl IndexError, st'))"

text \<open>
  Lines 110 to 113 of the first handler: the keys of the legal moves without
  \<open>datamodel.stop\<close>, or \<open>[datamodel.stop]\<close> when nothing else is left.
  \<open>moves.remove(datamodel.stop)\<close> takes the first occurrence out and raises \<open>ValueError\<close>
  when there is none.
\<close>

definition fallback_moves :: "move list \<Rightarrow> exn + move list" where
  "fallback_moves moves =
     (if stop \<notin> set moves then Inl (ValueError (PStr ''list.remove(x): x not in list''))
      else
        (let moves1 = remove1 stop moves
         in Inr (if moves1 = [] then [stop] else moves1)))"

text \<open>
  Lines 110 to 117, the body of the first handler: choose among these moves, apply the
  choice, append the timeout event. An exception raised here leaves the \<open>try\<close> statement.
\<close>

definition fallback ::
  "('w, 'p) collaborators \<Rightarrow> nat \<Rightarrow> bot \<Rightarrow> ('w, 'p) game_master
   \<Rightarrow> (exn + event list) \<times> ('w, 'p) game_master" where
  "fallback ops i b gm =
     (case fallback_moves (map fst (get_legal_moves ops (universe gm) (current_pos b))) of
        Inl e \<Rightarrow> (Inl e, gm)
      | Inr moves \<Rightarrow>
          (case choice ops (random_state gm) moves of
             (Inl e, st') \<Rightarrow> (Inl e, gm\<lparr>random_state := st'\<rparr>)
           | (Inr move, st') \<Rightarrow>
               (case move_bot ops (universe gm) i move of
                  Inl e \<Rightarrow> (Inl e, gm\<lparr>random_state := st'\<rparr>)
                | Inr (events, u') \<Rightarrow>
                    (Inr (events @ [TimeoutEvent (team_index b)]),
                     gm\<lparr>random_state := st', universe := u'\<rparr>))))"

text \<open>
  Lines 119 to 122, the body of the second handler. \<open>not bot.team_index\<close> is \<open>True\<close>
  (the number 1) for team 0 and \<open>False\<close> (the number 0) for every other team.
\<close>

definition disconnected ::
  "bot \<Rightarrow> ('w, 'p) game_master \<Rightarrow> (exn + event list) \<times> ('w, 'p) game_master" where
  "disconnected b gm =
     (let other_team_idx = (if team_index b = 0 then 1 else 0)
      in (Inr ([] @ [TeamWins other_team_idx]), gm))"

text \<open>
  The names bound in the module \<open>game_master\<close>: its imports (lines 5 to 10), the
  assignment of line 12 and its three classes.
\<close>

definition module_names :: "string list" where
  "module_names = [''copy'', ''random'', ''TypeAwareList'', ''datamodel'', ''AbstractViewer'',
                   ''__docformat__'', ''PlayerTimeout'', ''PlayerDisconnected'', ''GameMaster'']"

text \<open>
  The \<open>except\<close> clauses, lines 109 and 118. When the body of \<open>try\<close> raises, Python
  evaluates the expression of the first clause, \<open>(uni.IllegalMoveException,
  PlayerTimeout)\<close>, to compare the exception with it. The name \<open>uni\<close> is looked up in
  the module then, and a name the module does not bind raises \<open>NameError\<close> in place of
  the exception being handled, whichever it was; neither handler runs.
\<close>

definition except_clauses ::
  "('w, 'p) collaborators \<Rightarrow> nat \<Rightarrow> bot \<Rightarrow> exn \<Rightarrow> ('w, 'p) game_master
   \<Rightarrow> (exn + event list) \<times> ('w, 'p) game_master" where
  "except_clauses ops i b e gm =
     (if ''uni'' \<notin> set module_names then (Inl (NameError ''uni''), gm)
      else if e = IllegalMoveException \<or> e = PlayerTimeout then fallback ops i b gm
      else if e = PlayerDisconnected then disconnected b gm
      else (Inl e, gm))"

definition resolve ::
  "('w, 'p) collaborators \<Rightarrow> nat \<Rightarrow> bot \<Rightarrow> ('w, 'p) game_master
   \<Rightarrow> (exn + event list) \<times> ('w, 'p) game_master" where
  "resolve ops i b gm =
     (case try_body ops i b gm of
        (Inr events, gm') \<Rightarrow> (Inr events, gm')
      | (Inl e, gm') \<Rightarrow> except_clauses ops i b e gm')"

subsection \<open>\<open>play_round\<close> and \<open>play\<close>\<close>

text \<open>
  Lines 124 and 125: \<open>self.universe.teams[timeout_event.team_index]\<close> for every timeout
  event; the lookup raises \<open>IndexError\<close> past the end of the list.
\<close>

fun timeout_teams :: "team list \<Rightarrow> event list \<Rightarrow> exn + unit" where
  "timeout_teams ts [] = Inr ()"
| "timeout_teams ts (TimeoutEvent t # es) =
     (if t < length ts then timeout_teams ts es else Inl IndexError)"
| "timeout_teams ts (e # es) = timeout_teams ts es"

text \<open>
  Lines 128 and 129: every viewer observes, in the order of registration. The calls are
  not inside a \<open>try\<close>: a viewer that raises ends the loop, after the viewers before it
  have observed.
\<close>

fun broadcast ::
  "('w, 'p) collaborators \<Rightarrow> nat \<Rightarrow> nat \<Rightarrow> event list \<Rightarrow> nat list \<Rightarrow> ('w, 'p) game_master
   \<Rightarrow> exn option \<times> ('w, 'p) game_master" where
  "broadcast ops current_game_time i events [] gm = (None, gm)"
| "broadcast ops current_game_time i events (v # vs) gm =
     (let gm1 = gm\<lparr>history := history gm @
                     [Observe v current_game_time i (universe gm) events]\<rparr>
      in case observe ops v current_game_time i (universe gm) events of
           Some e \<Rightarrow> (Some e, gm1)
         | None \<Rightarrow> broadcast ops current_game_time i events vs gm1)"

text \<open>
  One pass through the body of the loop, lines 105 to 131, for the bot at position \<open>i\<close>.
  The result \<open>Inr False\<close> is the \<open>return False\<close> of line 131; \<open>Inr True\<close> goes on to the
  next bot.
\<close>

definition play_bot ::
  "('w, 'p) collaborators \<Rightarrow> nat \<Rightarrow> nat \<Rightarrow> ('w, 'p) game_master
   \<Rightarrow> (exn + bool) \<times> ('w, 'p) game_master" where
  "play_bot ops current_game_time i gm =
     (let b = bots (universe gm) ! i in
      if length (player_teams gm) \<le> team_index b then (Inl IndexError, gm)
      else
        (case resolve ops i b gm of
           (Inl e, gm1) \<Rightarrow> (Inl e, gm1)
         | (Inr events, gm1) \<Rightarrow>
             (let gm2 = gm1\<lparr>history := history gm1 @ [Produced i events]\<rparr> in
              case timeout_teams (teams (universe gm2)) (filter_type is_TimeoutEvent events) of
                Inl e \<Rightarrow> (Inl e, gm2)
              | Inr _ \<Rightarrow>
                  (case broadcast ops current_game_time i events (viewers gm2) gm2 of
                     (Some e, gm3) \<Rightarrow> (Inl e, gm3)
                   | (None, gm3) \<Rightarrow>
                       if contains_type is_TeamWins events then (Inr False, gm3)
                       else (Inr True, gm3)))))"

text \<open>
  The loop \<open>for i, bot in enumerate(self.universe.bots)\<close>. The positions to visit are
  those of the list when the loop starts; the bot is read from the list as it is when
  its turn comes, and the iterator stops when the position is past the end of the list.
  (A board that made the list longer during a round is not modelled: the list of bots is
  built once, at set-up.)
\<close>

fun play_round_loop ::
  "('w, 'p) collaborators \<Rightarrow> nat \<Rightarrow> nat list \<Rightarrow> ('w, 'p) game_master
   \<Rightarrow> (exn + bool) \<times> ('w, 'p) game_master" where
  "play_round_loop ops current_game_time [] gm = (Inr True, gm)"
| "play_round_loop ops current_game_time (i # rest) gm =
     (if length (bots (universe gm)) \<le> i then (Inr True, gm)
      else
        (case play_bot ops current_game_time i gm of
           (Inr True, gm') \<Rightarrow> play_round_loop ops current_game_time rest gm'
         | (r, gm') \<Rightarrow> (r, gm')))"

definition play_round ::
  "('w, 'p) collaborators \<Rightarrow> nat \<Rightarrow> ('w, 'p) game_master
   \<Rightarrow> (exn + bool) \<times> ('w, 'p) game_master" where
  "play_round ops current_game_time gm =
     play_round_loop ops current_game_time [0..<length (bots (universe gm))] gm"

text \<open>The loop \<open>for gt in range(self.game_time)\<close> of \<open>play\<close>, lines 89 to 91.\<close>

fun play_loop ::
  "('w, 'p) collaborators \<Rightarrow> nat list \<Rightarrow> ('w, 'p) game_master
   \<Rightarrow> (exn + unit) \<times> ('w, 'p) game_master" where
  "play_loop ops [] gm = (Inr (), gm)"
| "play_loop ops (gt # rest) gm =
     (case play_round ops gt gm of
        (Inl e, gm') \<Rightarrow> (Inl e, gm')
      | (Inr False, gm') \<Rightarrow> (Inr (), gm')
      | (Inr True, gm') \<Rightarrow> play_loop ops rest gm')"

text \<open>\<open>play\<close>: the check of lines 85 to 88, then the rounds.\<close>

definition play ::
  "('w, 'p) collaborators \<Rightarrow> ('w, 'p) game_master \<Rightarrow> (exn + unit) \<times> ('w, 'p) game_master" where
  "play ops gm =
     (if length (player_teams gm) \<noteq> length (teams (universe gm)) then (Inl IndexError, gm)
      else play_loop ops [0..<nat (game_time gm)] gm)"

subsection \<open>Reading the history of a round\<close>

text \<open>
  What one completed bot-move leaves in the history: the request, the events produced,
  and one observation per viewer, in the order of the viewer list. A step is the
  \<open>bot.index\<close> sent to the player, the board before the move, the board after it and the
  events.
\<close>

type_synonym 'w step = "nat \<times> 'w universe \<times> 'w universe \<times> event list"

definition bot_block :: "nat list \<Rightarrow> nat \<Rightarrow> nat \<Rightarrow> 'w step \<Rightarrow> 'w action list" where
  "bot_block vs gt i = (\<lambda>(bi, u0, u1, es).
     GetMove i bi u0 # Produced i es # map (\<lambda>v. Observe v gt i u1 es) vs)"

text \<open>The blocks of consecutive bot-moves, the first one for position \<open>i\<close>.\<close>

fun round_blocks :: "nat list \<Rightarrow> nat \<Rightarrow> nat \<Rightarrow> 'w step list \<Rightarrow> 'w action list" where
  "round_blocks vs gt i [] = []"
| "round_blocks vs gt i (s # steps) = bot_block vs gt i s @ round_blocks vs gt (Suc i) steps"

definition step_events :: "'w step \<Rightarrow> event list" where
  "step_events = (\<lambda>(bi, u0, u1, es). es)"

definition wins :: "'w step \<Rightarrow> bool" where
  "wins s = contains_type is_TeamWins (step_events s)"

text \<open>The event lists produced, and the positions requested, in a piece of history.\<close>

fun produced :: "'w action list \<Rightarrow> event list list" where
  "produced [] = []"
| "produced (Produced i es # h) = es # produced h"
| "produced (a # h) = produced h"

fun requested :: "'w action list \<Rightarrow> nat list" where
  "requested [] = []"
| "requested (GetMove i bi u # h) = i # requested h"
| "requested (a # h) = requested h"

text \<open>What was added to the history between two states.\<close>

definition new_history :: "('w, 'p) game_master \<Rightarrow> ('w, 'p) game_master \<Rightarrow> 'w action list" where
  "new_history gm gm' = drop (length (history gm)) (history gm')"

text \<open>
  The shape of the history of a (part of a) round that visits the positions from \<open>a\<close>
  up to \<open>n\<close>: blocks of completed bot-moves, none but the last with a \<open>TeamWins\<close> event,
  then what a bot-move that raised left behind.
\<close>

definition round_shape ::
  "nat \<Rightarrow> nat \<Rightarrow> nat \<Rightarrow> ('w, 'p) game_master \<Rightarrow> (exn + bool) \<Rightarrow> ('w, 'p) game_master
   \<Rightarrow> 'w step list \<Rightarrow> 'w action list \<Rightarrow> bool" where
  "round_shape gt a n gm r gm' steps tail =
     (history gm' = history gm @ round_blocks (viewers gm) gt a steps @ tail
      \<and> viewers gm' = viewers gm \<and> game_time gm' = game_time gm
      \<and> a + length steps \<le> max a n
      \<and> \<not> list_ex wins (butlast steps)
      \<and> (case r of
           Inr True \<Rightarrow> tail = [] \<and> \<not> list_ex wins steps
                       \<and> (n \<le> a + length steps \<or> length (bots (universe gm')) \<le> a + length steps)
         | Inr False \<Rightarrow> tail = [] \<and> steps \<noteq> [] \<and> wins (last steps)
         | Inl e \<Rightarrow> \<not> list_ex wins steps))"

text \<open>
  The state in which round \<open>k\<close> starts, when every round before it returned \<open>True\<close>:
  rounds are counted from the first one on, each run from the state its predecessor left.
\<close>

fun state_before_round ::
  "('w, 'p) collaborators \<Rightarrow> nat \<Rightarrow> ('w, 'p) game_master \<Rightarrow> ('w, 'p) game_master option" where
  "state_before_round ops 0 gm = Some gm"
| "state_before_round ops (Suc k) gm =
     (case state_before_round ops k gm of
        None \<Rightarrow> None
      | Some s \<Rightarrow> (case play_round ops k s of (Inr True, s') \<Rightarrow> Some s' | _ \<Rightarrow> None))"

subsection \<open>A small match\<close>

text \<open>
  Two teams with one bot each on a corridor; a bot may stay or step east, any other move
  is illegal, and a bot that reaches column 2 wins the match for its team. A player
  answers every request with the same move or the same exception. One viewer, number 7.
\<close>

definition east :: move where
  "east = (1, 0)"

definition demo_universe :: "unit universe" where
  "demo_universe =
     \<lparr>bots = [\<lparr>index = 0, team_index = 0, current_pos = (1, 1)\<rparr>,
              \<lparr>index = 1, team_index = 1, current_pos = (3, 1)\<rparr>],
      teams = [\<lparr>team_bots = [0]\<rparr>, \<lparr>team_bots = [1]\<rparr>],
      board = ()\<rparr>"

definition demo_legal_moves :: "unit universe \<Rightarrow> pos \<Rightarrow> (move \<times> pos) list" where
  "demo_legal_moves u p = [(stop, p), (east, (fst p + 1, snd p))]"

definition demo_move_bot ::
  "unit universe \<Rightarrow> nat \<Rightarrow> move \<Rightarrow> exn + (event list \<times> unit universe)" where
  "demo_move_bot u i m =
     (let b = bots u ! i in
      case map_of (demo_legal_moves u (current_pos b)) m of
        None \<Rightarrow> Inl IllegalMoveException
      | Some p \<Rightarrow>
          Inr (MovementEvent i # (if fst p = 2 then [TeamWins (team_index b)] else []),
               u\<lparr>bots := (bots u)[i := b\<lparr>current_pos := p\<rparr>]\<rparr>))"

definition demo_ops :: "(unit, exn + move) collaborators" where
  "demo_ops =
     \<lparr>get_move = (\<lambda>p bi u. (p, p)),
      move_bot = demo_move_bot,
      get_legal_moves = demo_legal_moves,
      random_index = (\<lambda>st n. (st mod n, Suc st)),
      observe = (\<lambda>v gt i u es. None)\<rparr>"

definition demo_game :: "(exn + move) list \<Rightarrow> (unit, exn + move) game_master" where
  "demo_game players =
     \<lparr>universe = demo_universe, game_time = 5, number_bots = 2, player_teams = players,
      viewers = [7], random_state = 0, history = []\<rparr>"

text \<open>The same match on a board where staying in place is not a legal move.\<close>

definition demo_ops_no_stop :: "(unit, exn + move) collaborators" where
  "demo_ops_no_stop =
     demo_ops\<lparr>get_legal_moves := (\<lambda>u p. [(east, (fst p + 1, snd p))])\<rparr>"


text \<open>
  The field sets of the four variants, as \<open>dict\<close> writes them.
\<close>

definition variant_fields :: "string set set" where
  "variant_fields = {{''method'', ''params'', ''id''}, {''method'', ''params''},
                     {''result'', ''id''}, {''error'', ''id''}}"

section \<open>Properties of the message protocol\<close>

lemma map_of_Some_key: "map_of d k = Some v \<Longrightarrow> k \<in> fst ` set d"
  by (metis map_of_eq_None_iff option.distinct(1))

lemma map_of_key_Some: "k \<in> fst ` set d \<Longrightarrow> \<exists>v. map_of d k = Some v"
  by (cases "map_of d k") (simp_all add: map_of_eq_None_iff)

lemma unexpected_keyword_iff: "unexpected_keyword names d \<longleftrightarrow> \<not> fst ` set d \<subseteq> set names"
  by (auto simp: unexpected_keyword_def list_ex_iff)

lemma Query_kwargs_ok:
  "(\<exists>m. Query_kwargs d = Inr m) \<longleftrightarrow> fst ` set d = {''method'', ''params'', ''id''}"
proof
  assume "\<exists>m. Query_kwargs d = Inr m"
  then show "fst ` set d = {''method'', ''params'', ''id''}"
    unfolding Query_kwargs_def unexpected_keyword_iff
    by (auto split: option.splits if_splits dest!: map_of_Some_key)
next
  assume a: "fst ` set d = {''method'', ''params'', ''id''}"
  then obtain m p i where "map_of d ''method'' = Some m" "map_of d ''params'' = Some p"
    "map_of d ''id'' = Some i"
    using map_of_key_Some[of "''method''" d] map_of_key_Some[of "''params''" d]
      map_of_key_Some[of "''id''" d] by auto
  with a show "\<exists>m. Query_kwargs d = Inr m"
    unfolding Query_kwargs_def unexpected_keyword_iff by simp
qed

lemma Notification_kwargs_ok:
  "(\<exists>m. Notification_kwargs d = Inr m) \<longleftrightarrow> fst ` set d = {''method'', ''params''}"
proof
  assume "\<exists>m. Notification_kwargs d = Inr m"
  then show "fst ` set d = {''method'', ''params''}"
    unfolding Notification_kwargs_def unexpected_keyword_iff
    by (auto split: option.splits if_splits dest!: map_of_Some_key)
next
  assume a: "fst ` set d = {''method'', ''params''}"
  then obtain m p where "map_of d ''method'' = Some m" "map_of d ''params'' = Some p"
    using map_of_key_Some[of "''method''" d] map_of_key_Some[of "''params''" d] by auto
  with a show "\<exists>m. Notification_kwargs d = Inr m"
    unfolding Notification_kwargs_def unexpected_keyword_iff by simp
qed

lemma Response_kwargs_ok:
  "(\<exists>m. Response_kwargs d = Inr m) \<longleftrightarrow> fst ` set d = {''result'', ''id''}"
proof
  assume "\<exists>m. Response_kwargs d = Inr m"
  then show "fst ` set d = {''result'', ''id''}"
    unfolding Response_kwargs_def unexpected_keyword_iff
    by (auto split: option.splits if_splits dest!: map_of_Some_key)
next
  assume a: "fst ` set d = {''result'', ''id''}"
  then obtain r i where "map_of d ''result'' = Some r" "map_of d ''id'' = Some i"
    using map_of_key_Some[of "''result''" d] map_of_key_Some[of "''id''" d] by auto
  with a show "\<exists>m. Response_kwargs d = Inr m"
    unfolding Response_kwargs_def unexpected_keyword_iff by simp
qed

lemma Error_kwargs_ok:
  "(\<exists>m. Error_kwargs d = Inr m) \<longleftrightarrow> fst ` set d = {''error'', ''id''}"
proof
  assume "\<exists>m. Error_kwargs d = Inr m"
  then show "fst ` set d = {''error'', ''id''}"
    unfolding Error_kwargs_def unexpected_keyword_iff
    by (auto split: option.splits if_splits dest!: map_of_Some_key)
next
  assume a: "fst ` set d = {''error'', ''id''}"
  then obtain e i where "map_of d ''error'' = Some e" "map_of d ''id'' = Some i"
    using map_of_key_Some[of "''error''" d] map_of_key_Some[of "''id''" d] by auto
  with a show "\<exists>m. Error_kwargs d = Inr m"
    unfolding Error_kwargs_def unexpected_keyword_iff by simp
qed

text \<open>A constructor called with keywords raises nothing but \<open>TypeError\<close>.\<close>

lemma kwargs_TypeError:
  "Query_kwargs d = Inl e \<Longrightarrow> e = TypeError"
  "Notification_kwargs d = Inl e \<Longrightarrow> e = TypeError"
  "Response_kwargs d = Inl e \<Longrightarrow> e = TypeError"
  "Error_kwargs d = Inl e \<Longrightarrow> e = TypeError"
  unfolding Query_kwargs_def Notification_kwargs_def Response_kwargs_def Error_kwargs_def
  by (auto split: option.splits if_splits)

text \<open>The loop of \<open>_load_message\<close>, with the four classes written out in their order.\<close>

lemma load_message_unfold:
  "load_message d =
    (case Query_kwargs d of Inr m \<Rightarrow> Inr m | Inl e \<Rightarrow>
     case Notification_kwargs d of Inr m \<Rightarrow> Inr m | Inl e \<Rightarrow>
     case Response_kwargs d of Inr m \<Rightarrow> Inr m | Inl e \<Rightarrow>
     case Error_kwargs d of Inr m \<Rightarrow> Inr m | Inl e \<Rightarrow> Inl (ValueError (PDict d)))"
proof -
  have q: "Query_kwargs d = Inl TypeError \<or> (\<exists>m. Query_kwargs d = Inr m)"
    by (cases "Query_kwargs d") (auto dest: kwargs_TypeError)
  have n: "Notification_kwargs d = Inl TypeError \<or> (\<exists>m. Notification_kwargs d = Inr m)"
    by (cases "Notification_kwargs d") (auto dest: kwargs_TypeError)
  have r: "Response_kwargs d = Inl TypeError \<or> (\<exists>m. Response_kwargs d = Inr m)"
    by (cases "Response_kwargs d") (auto dest: kwargs_TypeError)
  have e: "Error_kwargs d = Inl TypeError \<or> (\<exists>m. Error_kwargs d = Inr m)"
    by (cases "Error_kwargs d") (auto dest: kwargs_TypeError)
  show ?thesis
    unfolding load_message_def defined_messages_def
    using q n r e by auto
qed

text \<open>
  Claim C4. Decoding the dictionary of a message gives back a message of the same class
  with the same method, params, id, result and error: a \<open>Notification\<close>, a \<open>Response\<close>
  and an \<open>Error\<close> come back as they were, a \<open>Query\<close> comes back with its three fields
  and, as every newly constructed query, with no channel. In particular the dictionary
  of \<open>Query("move", [3], "q-7")\<close> is decoded to a query with method \<open>"move"\<close>, params
  \<open>[3]\<close> and id \<open>"q-7"\<close>.
\<close>

theorem load_message_dict_roundtrip:
  "load_message (dict (Query method params ident ch)) = Inr (Query method params ident None) \<and>
   load_message (dict (Notification method params)) = Inr (Notification method params) \<and>
   load_message (dict (Response result ident)) = Inr (Response result ident) \<and>
   load_message (dict (Error err ident)) = Inr (Error err ident) \<and>
   load_message (dict (Query_init (PStr ''move'') (PList [PInt 3]) (PStr ''q-7'')))
     = Inr (Query (PStr ''move'') (PList [PInt 3]) (PStr ''q-7'') None)"
  by (simp add: load_message_def defined_messages_def Query_kwargs_def Notification_kwargs_def
      Response_kwargs_def Error_kwargs_def unexpected_keyword_def Query_init_def)

text \<open>
  Claim C7. \<open>is_response\<close> is false for a \<open>Query\<close> and for a \<open>Notification\<close>, true for a
  \<open>Response\<close>, and for an \<open>Error\<close> it is true exactly when the id is not \<open>None\<close>.
\<close>

theorem is_response_by_variant:
  "is_response (Query method params ident ch) = False \<and>
   is_response (Notification method params) = False \<and>
   is_response (Response result ident) = True \<and>
   (is_response (Error err ident) \<longleftrightarrow> ident \<noteq> PNone)"
  by simp

text \<open>
  Claim C8. Decoding a dictionary fails, with the \<open>ValueError\<close> that carries the
  dictionary, exactly when the set of its field names is none of the four variants'
  field sets; it returns a message exactly when the field names are those of one of the
  variants.
\<close>

theorem load_message_fails_iff:
  "(load_message d = Inl (ValueError (PDict d)) \<longleftrightarrow> fst ` set d \<notin> variant_fields) \<and>
   ((\<exists>m. load_message d = Inr m) \<longleftrightarrow> fst ` set d \<in> variant_fields)"
proof -
  have q: "fst ` set d = {''method'', ''params'', ''id''} \<longleftrightarrow> (\<exists>m. Query_kwargs d = Inr m)"
    by (simp add: Query_kwargs_ok)
  have n: "fst ` set d = {''method'', ''params''} \<longleftrightarrow> (\<exists>m. Notification_kwargs d = Inr m)"
    by (simp add: Notification_kwargs_ok)
  have r: "fst ` set d = {''result'', ''id''} \<longleftrightarrow> (\<exists>m. Response_kwargs d = Inr m)"
    by (simp add: Response_kwargs_ok)
  have e: "fst ` set d = {''error'', ''id''} \<longleftrightarrow> (\<exists>m. Error_kwargs d = Inr m)"
    by (simp add: Error_kwargs_ok)
  have v: "fst ` set d \<in> variant_fields \<longleftrightarrow>
      (\<exists>m. Query_kwargs d = Inr m) \<or> (\<exists>m. Notification_kwargs d = Inr m) \<or>
      (\<exists>m. Response_kwargs d = Inr m) \<or> (\<exists>m. Error_kwargs d = Inr m)"
    unfolding variant_fields_def using q n r e by simp
  show ?thesis
    unfolding v load_message_unfold
    by (cases "Query_kwargs d"; cases "Notification_kwargs d"; cases "Response_kwargs d";
        cases "Error_kwargs d") simp_all
qed

theorem load_message_fails_iff_witness:
  "load_message [(''verb'', PStr ''move'')] = Inl (ValueError (PDict [(''verb'', PStr ''move'')])) \<and>
   (\<exists>m. load_message [(''id'', PNone), (''error'', PStr ''lost'')] = Inr m)"
proof -
  have a: "fst ` set [(''verb'', PStr ''move'')] \<notin> variant_fields"
    by (simp add: variant_fields_def)
  have b: "fst ` set [(''id'', PNone), (''error'', PStr ''lost'')] \<in> variant_fields"
    by (auto simp: variant_fields_def)
  show ?thesis
    using a b load_message_fails_iff [of "[(''verb'', PStr ''move'')]"]
      load_message_fails_iff [of "[(''id'', PNone), (''error'', PStr ''lost'')]"]
    by blast
qed

text \<open>
  Claim C10. A query as its constructor leaves it has no channel: \<open>reply\<close> and
  \<open>reply_error\<close> raise and change no channel, while \<open>response\<close> and \<open>error_msg\<close> return the
  \<open>Response\<close> and the \<open>Error\<close> that carry the id of the query.
\<close>

theorem fresh_query_has_no_channel:
  "reply (Query_init method params ident) result chs = Inl (AttributeError ''put'') \<and>
   reply_error (Query_init method params ident) err chs = Inl (AttributeError ''put'') \<and>
   response (Query_init method params ident) result = Inr (Response result ident) \<and>
   error_msg (Query_init method params ident) err = Inr (Error err ident)"
  by (simp add: Query_init_def)


section \<open>Properties of the controller\<close>

lemmas demo_defs = demo_game_def demo_ops_def demo_ops_no_stop_def demo_move_bot_def
  demo_legal_moves_def demo_universe_def east_def stop_def

lemmas round_defs = play_round_def play_bot_def resolve_def try_body_def except_clauses_def
  module_names_def filter_type_def contains_type_def Let_def

subsection \<open>What each part leaves unchanged\<close>

lemma try_body_frame:
  "try_body ops i b gm = (r, gm') \<Longrightarrow>
     history gm' = history gm @ [GetMove i (index b) (universe gm)] \<and> viewers gm' = viewers gm
     \<and> game_time gm' = game_time gm"
  unfolding try_body_def Let_def
  by (auto split: prod.splits sum.splits)

lemma try_body_raises_universe:
  "try_body ops i b gm = (Inl e, gm1) \<Longrightarrow> universe gm1 = universe gm"
  unfolding try_body_def Let_def
  by (auto split: prod.splits sum.splits)

lemma fallback_frame:
  "fallback ops i b gm = (r, gm') \<Longrightarrow>
     history gm' = history gm \<and> viewers gm' = viewers gm \<and> game_time gm' = game_time gm"
  unfolding fallback_def
  by (auto split: prod.splits sum.splits if_splits)

lemma disconnected_frame:
  "disconnected b gm = (r, gm') \<Longrightarrow> gm' = gm"
  unfolding disconnected_def by auto

lemma except_clauses_frame:
  "except_clauses ops i b e gm = (r, gm') \<Longrightarrow>
     history gm' = history gm \<and> viewers gm' = viewers gm \<and> game_time gm' = game_time gm"
  unfolding except_clauses_def
  by (auto split: if_splits dest: fallback_frame disconnected_frame)

lemma resolve_frame:
  "resolve ops i b gm = (r, gm') \<Longrightarrow>
     history gm' = history gm @ [GetMove i (index b) (universe gm)] \<and> viewers gm' = viewers gm
      \<and> game_time gm' = game_time gm"
  unfolding resolve_def
  by (auto split: prod.splits sum.splits dest!: try_body_frame except_clauses_frame)

subsection \<open>The handlers as they are written\<close>

lemma fallback_moves_Inr_stop: "fallback_moves moves = Inr ms \<Longrightarrow> stop \<in> set moves"
  by (auto simp: fallback_moves_def split: if_splits)

text \<open>
  The keys of a dictionary are distinct. The moves the first handler chooses among are
  then legal moves, each once, and \<open>stop\<close> is among them only when it is alone.
\<close>

lemma fallback_moves_choice:
  assumes "distinct moves" "fallback_moves moves = Inr ms"
  shows "ms \<noteq> [] \<and> distinct ms \<and> set ms \<subseteq> set moves \<and> (stop \<in> set ms \<longrightarrow> ms = [stop])"
proof -
  from assms(2) have st: "stop \<in> set moves"
    and ms: "ms = (if remove1 stop moves = [] then [stop] else remove1 stop moves)"
    by (simp_all add: fallback_moves_def Let_def split: if_splits)
  show ?thesis
  proof (cases "remove1 stop moves = []")
    case True
    with ms st show ?thesis by simp
  next
    case False
    with ms have m: "ms = remove1 stop moves" by simp
    have "stop \<notin> set (remove1 stop moves)" using assms(1) by simp
    moreover have "set (remove1 stop moves) \<subseteq> set moves" by (rule set_remove1_subset)
    ultimately show ?thesis using m False assms(1) by simp
  qed
qed

text \<open>
  Run on their own in the small match, the handlers do what their text says: the first
  moves bot 0 east and reports the timeout of team 0, the second awards the match to
  team 1 and leaves the game as it is.
\<close>

lemma fallback_demo:
  "fallback demo_ops 0 (bots demo_universe ! 0) (demo_game [Inl PlayerTimeout, Inr stop]) =
     (Inr [MovementEvent 0, TeamWins 0, TimeoutEvent 0],
      (demo_game [Inl PlayerTimeout, Inr stop])
        \<lparr>random_state := 1,
         universe := demo_universe
           \<lparr>bots := [\<lparr>index = 0, team_index = 0, current_pos = (2, 1)\<rparr>,
                     \<lparr>index = 1, team_index = 1, current_pos = (3, 1)\<rparr>]\<rparr>\<rparr>)"
  by (simp add: fallback_def fallback_moves_def choice_def demo_defs Let_def)

lemma disconnected_demo:
  "disconnected (bots demo_universe ! 0) (demo_game [Inl PlayerDisconnected, Inr stop]) =
     (Inr [TeamWins 1], demo_game [Inl PlayerDisconnected, Inr stop])"
  by (simp add: disconnected_def demo_defs)

subsection \<open>One bot-move\<close>

lemma broadcast_frame:
  "broadcast ops gt i es vs gm = (r, gm') \<Longrightarrow>
     viewers gm' = viewers gm \<and> game_time gm' = game_time gm \<and> universe gm' = universe gm
     \<and> (\<exists>tail. history gm' = history gm @ tail)"
proof (induction vs arbitrary: gm)
  case Nil
  then show ?case by simp
next
  case (Cons v vs)
  show ?case
  proof (cases "observe ops v gt i (universe gm) es")
    case (Some e)
    with Cons.prems show ?thesis by (auto simp: Let_def)
  next
    case None
    let ?g = "gm\<lparr>history := history gm @ [Observe v gt i (universe gm) es]\<rparr>"
    from None Cons.prems have "broadcast ops gt i es vs ?g = (r, gm')"
      by (simp add: Let_def)
    from Cons.IH[OF this] show ?thesis by auto
  qed
qed

lemma broadcast_all:
  "broadcast ops gt i es vs gm = (None, gm') \<Longrightarrow>
     history gm' = history gm @ map (\<lambda>v. Observe v gt i (universe gm) es) vs"
proof (induction vs arbitrary: gm)
  case Nil
  then show ?case by simp
next
  case (Cons v vs)
  let ?g = "gm\<lparr>history := history gm @ [Observe v gt i (universe gm) es]\<rparr>"
  from Cons.prems have "broadcast ops gt i es vs ?g = (None, gm')"
    by (auto simp: Let_def split: option.splits)
  from Cons.IH[OF this] show ?case by simp
qed

lemma play_bot_returns:
  assumes "play_bot ops gt i gm = (Inr c, gm')"
  shows "\<exists>es. history gm' = history gm @
            bot_block (viewers gm) gt i (index (bots (universe gm) ! i), universe gm, universe gm', es)
          \<and> c = (\<not> contains_type is_TeamWins es)"
    and "viewers gm' = viewers gm" and "game_time gm' = game_time gm"
proof -
  let ?b = "bots (universe gm) ! i"
  from assms obtain es gm1 gm3 where
    rs: "resolve ops i ?b gm = (Inr es, gm1)"
    and bc: "broadcast ops gt i es (viewers gm1)
               (gm1\<lparr>history := history gm1 @ [Produced i es]\<rparr>) = (None, gm3)"
    and c: "c = (\<not> contains_type is_TeamWins es)" and g: "gm' = gm3"
    unfolding play_bot_def Let_def
    by (auto split: prod.splits sum.splits if_splits option.splits)
  from resolve_frame[OF rs] have
    h1: "history gm1 = history gm @ [GetMove i (index ?b) (universe gm)]"
    and v1: "viewers gm1 = viewers gm" and t1: "game_time gm1 = game_time gm" by auto
  from broadcast_frame[OF bc] have
    v3: "viewers gm3 = viewers gm1" and t3: "game_time gm3 = game_time gm1"
    and u3: "universe gm3 = universe gm1" by auto
  from broadcast_all[OF bc] have
    h3: "history gm3 = history gm1 @ [Produced i es] @
           map (\<lambda>v. Observe v gt i (universe gm1) es) (viewers gm1)" by simp
  have "history gm' = history gm @
      bot_block (viewers gm) gt i (index ?b, universe gm, universe gm', es)"
    using h1 h3 v1 u3 g by (simp add: bot_block_def)
  with c show "\<exists>es. history gm' = history gm @
            bot_block (viewers gm) gt i (index ?b, universe gm, universe gm', es)
          \<and> c = (\<not> contains_type is_TeamWins es)" by blast
  show "viewers gm' = viewers gm" using v1 v3 g by simp
  show "game_time gm' = game_time gm" using t1 t3 g by simp
qed

lemma play_bot_raises:
  assumes "play_bot ops gt i gm = (Inl e, gm')"
  shows "\<exists>tail. history gm' = history gm @ tail"
    and "viewers gm' = viewers gm" and "game_time gm' = game_time gm"
  using assms unfolding play_bot_def Let_def
  by (auto split: prod.splits sum.splits if_splits option.splits
           dest!: resolve_frame broadcast_frame)

subsection \<open>The history of a round\<close>

lemma round_blocks_append:
  "round_blocks vs gt i (xs @ ys) = round_blocks vs gt i xs @ round_blocks vs gt (i + length xs) ys"
  by (induction xs arbitrary: i) auto

lemma play_round_loop_shape:
  "play_round_loop ops gt [a..<n] gm = (r, gm') \<Longrightarrow> \<exists>steps tail. round_shape gt a n gm r gm' steps tail"
proof (induction "n - a" arbitrary: a gm)
  case 0
  then have "r = Inr True" "gm' = gm" by auto
  then have "round_shape gt a n gm r gm' [] []"
    using 0 by (simp add: round_shape_def)
  then show ?case by blast
next
  case (Suc k)
  then have an: "a < n" and upt: "[a..<n] = a # [Suc a..<n]" and k: "k = n - Suc a"
    by (auto simp: upt_conv_Cons)
  show ?case
  proof (cases "length (bots (universe gm)) \<le> a")
    case True
    with Suc.prems upt have "r = Inr True" "gm' = gm" by auto
    then have "round_shape gt a n gm r gm' [] []"
      using True by (simp add: round_shape_def)
    then show ?thesis by blast
  next
    case False
    obtain r1 g1 where pb: "play_bot ops gt a gm = (r1, g1)" by (cases "play_bot ops gt a gm")
    show ?thesis
    proof (cases r1)
      case (Inl e)
      with pb False Suc.prems upt have res: "r = Inl e" "gm' = g1" by auto
      from play_bot_raises[OF pb[unfolded Inl]] obtain tail where
        "history g1 = history gm @ tail" "viewers g1 = viewers gm"
        "game_time g1 = game_time gm" by blast
      then have "round_shape gt a n gm r gm' [] tail"
        using res by (simp add: round_shape_def)
      then show ?thesis by blast
    next
      case (Inr c)
      from play_bot_returns[OF pb[unfolded Inr]] obtain es where
        h: "history g1 = history gm @
             bot_block (viewers gm) gt a (index (bots (universe gm) ! a), universe gm, universe g1, es)"
        and c: "c = (\<not> contains_type is_TeamWins es)"
        and v: "viewers g1 = viewers gm" and t: "game_time g1 = game_time gm" by blast
      let ?s = "(index (bots (universe gm) ! a), universe gm, universe g1, es)"
      show ?thesis
      proof (cases c)
        case False
        with pb Inr \<open>\<not> length (bots (universe gm)) \<le> a\<close> Suc.prems upt
        have res: "r = Inr False" "gm' = g1" by auto
        have "round_shape gt a n gm r gm' [?s] []"
          using res h c v t False an by (simp add: round_shape_def wins_def step_events_def)
        then show ?thesis by blast
      next
        case True
        with pb Inr \<open>\<not> length (bots (universe gm)) \<le> a\<close> Suc.prems upt
        have "play_round_loop ops gt [Suc a..<n] g1 = (r, gm')" by auto
        from Suc.hyps(1)[OF k this] obtain steps tail where
          ih: "round_shape gt (Suc a) n g1 r gm' steps tail" by blast
        have nw: "\<not> wins ?s" using True c by (simp add: wins_def step_events_def)
        have bl: "\<not> list_ex wins (butlast (?s # steps))"
          using ih nw by (cases steps) (auto simp: round_shape_def)
        have "round_shape gt a n gm r gm' (?s # steps) tail"
          using ih h v t nw bl an unfolding round_shape_def
          by (auto split: sum.splits bool.splits)
        then show ?thesis by blast
      qed
    qed
  qed
qed

lemma play_round_shape:
  assumes "play_round ops gt gm = (r, gm')"
  obtains steps tail where
    "round_shape gt 0 (length (bots (universe gm))) gm r gm' steps tail"
  using assms play_round_loop_shape unfolding play_round_def by blast

lemma produced_append: "produced (xs @ ys) = produced xs @ produced ys"
  by (induction xs rule: produced.induct) auto

lemma requested_append: "requested (xs @ ys) = requested xs @ requested ys"
  by (induction xs rule: requested.induct) auto

lemma produced_observes: "produced (map (\<lambda>v. Observe v gt i u es) vs) = []"
  by (induction vs) auto

lemma requested_observes: "requested (map (\<lambda>v. Observe v gt i u es) vs) = []"
  by (induction vs) auto

lemma produced_bot_block: "produced (bot_block vs gt i s) = [step_events s]"
  by (cases s) (simp add: bot_block_def step_events_def produced_observes)

lemma requested_bot_block: "requested (bot_block vs gt i s) = [i]"
  by (cases s) (simp add: bot_block_def requested_observes)

lemma produced_round_blocks: "produced (round_blocks vs gt a steps) = map step_events steps"
  by (induction steps arbitrary: a) (auto simp: produced_append produced_bot_block)

lemma requested_round_blocks: "requested (round_blocks vs gt a steps) = [a..<a + length steps]"
proof (induction steps arbitrary: a)
  case Nil
  then show ?case by simp
next
  case (Cons s steps)
  have "[a..<a + length (s # steps)] = a # [Suc a..<Suc a + length steps]"
    by (subst upt_rec) simp
  then show ?case
    using Cons.IH[of "Suc a"]
    by (simp add: requested_append requested_bot_block del: upt_Suc)
qed

lemma list_ex_wins: "list_ex (contains_type is_TeamWins) (map step_events steps) = list_ex wins steps"
  by (induction steps) (auto simp: wins_def)

subsection \<open>The rounds of a match\<close>

lemma play_loop_prefix:
  "state_before_round ops k gm = Some s \<Longrightarrow>
     play_loop ops ([0..<k] @ rest) gm = play_loop ops rest s"
proof (induction k arbitrary: s rest)
  case 0
  then show ?case by simp
next
  case (Suc k)
  then obtain s0 where s0: "state_before_round ops k gm = Some s0"
    and pr: "play_round ops k s0 = (Inr True, s)"
    by (auto split: option.splits prod.splits sum.splits bool.splits)
  have "play_loop ops ([0..<Suc k] @ rest) gm = play_loop ops ([0..<k] @ (k # rest)) gm"
    by simp
  also have "\<dots> = play_loop ops (k # rest) s0" by (rule Suc.IH[OF s0])
  also have "\<dots> = play_loop ops rest s" using pr by simp
  finally show ?case .
qed

subsection \<open>Runs of the small match\<close>

lemma demo_round_wins:
  "play_round demo_ops 0 (demo_game [Inr east, Inr east]) =
     (Inr False,
      (demo_game [Inr east, Inr east])
        \<lparr>universe := demo_universe
           \<lparr>bots := [\<lparr>index = 0, team_index = 0, current_pos = (2, 1)\<rparr>,
                     \<lparr>index = 1, team_index = 1, current_pos = (3, 1)\<rparr>]\<rparr>,
         history := [GetMove 0 0 demo_universe, Produced 0 [MovementEvent 0, TeamWins 0],
                     Observe 7 0 0
                       (demo_universe
                          \<lparr>bots := [\<lparr>index = 0, team_index = 0, current_pos = (2, 1)\<rparr>,
                                    \<lparr>index = 1, team_index = 1, current_pos = (3, 1)\<rparr>]\<rparr>)
                       [MovementEvent 0, TeamWins 0]]\<rparr>)"
  by (simp add: demo_defs round_defs upt_conv_Cons)

lemma demo_round_stays:
  "play_round demo_ops gt ((demo_game [Inr stop, Inr stop])\<lparr>game_time := T, history := h\<rparr>) =
     (Inr True,
      (demo_game [Inr stop, Inr stop])
        \<lparr>game_time := T,
         history := h @ [GetMove 0 0 demo_universe, Produced 0 [MovementEvent 0],
                         Observe 7 gt 0 demo_universe [MovementEvent 0],
                         GetMove 1 1 demo_universe, Produced 1 [MovementEvent 1],
                         Observe 7 gt 1 demo_universe [MovementEvent 1]]\<rparr>)"
  by (simp add: demo_defs round_defs upt_conv_Cons)

section \<open>Rounds, matches and player faults\<close>

text \<open>
  Rounds that return. Such a round returns \<open>False\<close> exactly when a \<open>TeamWins\<close> event is
  among the events produced by one of its bot-moves. When it returns \<open>False\<close>, the
  history of the round ends with the block of the winning bot: its request, its events
  with the \<open>TeamWins\<close> event, and the observations of the viewers; no bot before it
  produced a \<open>TeamWins\<close> event and no bot after it was asked for a move. When it returns
  \<open>True\<close> and the board still has as many bots as before, every bot was asked once, in
  the order of the list, and produced its events.
\<close>

lemma play_round_returns:
  assumes "play_round ops gt gm = (r, gm')"
  shows "(\<forall>c. r = Inr c \<longrightarrow>
            (\<not> c) = list_ex (contains_type is_TeamWins) (produced (new_history gm gm')))
       \<and> (r = Inr False \<longrightarrow>
            (\<exists>pre i s. new_history gm gm' = pre @ bot_block (viewers gm) gt i s
               \<and> contains_type is_TeamWins (step_events s)
               \<and> \<not> list_ex (contains_type is_TeamWins) (produced pre)
               \<and> requested (new_history gm gm') = [0..<Suc i]))
       \<and> (r = Inr True \<and> length (bots (universe gm')) = length (bots (universe gm)) \<longrightarrow>
            requested (new_history gm gm') = [0..<length (bots (universe gm))]
            \<and> length (produced (new_history gm gm')) = length (bots (universe gm)))"
proof -
  from assms obtain steps tail where
    sh: "round_shape gt 0 (length (bots (universe gm))) gm r gm' steps tail"
    by (rule play_round_shape)
  then have new: "new_history gm gm' = round_blocks (viewers gm) gt 0 steps @ tail"
    by (simp add: round_shape_def new_history_def)
  have len: "length steps \<le> length (bots (universe gm))"
    using sh by (simp add: round_shape_def)
  have T: "r = Inr True \<Longrightarrow> tail = [] \<and> \<not> list_ex wins steps
        \<and> (length (bots (universe gm)) \<le> length steps \<or> length (bots (universe gm')) \<le> length steps)"
    using sh by (simp add: round_shape_def)
  have F: "r = Inr False \<Longrightarrow> tail = [] \<and> steps \<noteq> [] \<and> wins (last steps)
        \<and> \<not> list_ex wins (butlast steps)"
    using sh by (simp add: round_shape_def)
  have c1: "\<forall>c. r = Inr c \<longrightarrow>
            (\<not> c) = list_ex (contains_type is_TeamWins) (produced (new_history gm gm'))"
  proof (intro allI impI)
    fix c assume r: "r = Inr c"
    show "(\<not> c) = list_ex (contains_type is_TeamWins) (produced (new_history gm gm'))"
    proof (cases c)
      case True
      with r T show ?thesis by (simp add: new produced_round_blocks list_ex_wins)
    next
      case False
      with r F have "tail = []" "steps \<noteq> []" "wins (last steps)" by auto
      then have "list_ex wins steps" by (auto simp: list_ex_iff)
      with False \<open>tail = []\<close> show ?thesis
        by (simp add: new produced_round_blocks list_ex_wins)
    qed
  qed
  have c2: "r = Inr False \<longrightarrow>
            (\<exists>pre i s. new_history gm gm' = pre @ bot_block (viewers gm) gt i s
               \<and> contains_type is_TeamWins (step_events s)
               \<and> \<not> list_ex (contains_type is_TeamWins) (produced pre)
               \<and> requested (new_history gm gm') = [0..<Suc i])"
  proof
    assume "r = Inr False"
    with F have f: "tail = []" "steps \<noteq> []" "wins (last steps)" "\<not> list_ex wins (butlast steps)"
      by auto
    let ?pre = "round_blocks (viewers gm) gt 0 (butlast steps)"
    let ?i = "length (butlast steps)"
    have "steps = butlast steps @ [last steps]" using f by simp
    then have "round_blocks (viewers gm) gt 0 steps
        = ?pre @ bot_block (viewers gm) gt ?i (last steps)"
      using round_blocks_append[of "viewers gm" gt 0 "butlast steps" "[last steps]"] by simp
    moreover have "requested (new_history gm gm') = [0..<Suc ?i]"
      using f by (simp add: new requested_round_blocks)
    moreover have "\<not> list_ex (contains_type is_TeamWins) (produced ?pre)"
      using f by (simp add: produced_round_blocks list_ex_wins)
    ultimately show "\<exists>pre i s. new_history gm gm' = pre @ bot_block (viewers gm) gt i s
               \<and> contains_type is_TeamWins (step_events s)
               \<and> \<not> list_ex (contains_type is_TeamWins) (produced pre)
               \<and> requested (new_history gm gm') = [0..<Suc i]"
      using f new wins_def by (metis append_Nil2)
  qed
  have c3: "r = Inr True \<and> length (bots (universe gm')) = length (bots (universe gm)) \<longrightarrow>
            requested (new_history gm gm') = [0..<length (bots (universe gm))]
            \<and> length (produced (new_history gm gm')) = length (bots (universe gm))"
  proof
    assume a: "r = Inr True \<and> length (bots (universe gm')) = length (bots (universe gm))"
    with T len have "tail = []" "length steps = length (bots (universe gm))" by auto
    then show "requested (new_history gm gm') = [0..<length (bots (universe gm))]
            \<and> length (produced (new_history gm gm')) = length (bots (universe gm))"
      by (simp add: new requested_round_blocks produced_round_blocks)
  qed
  from c1 c2 c3 show ?thesis by blast
qed

text \<open>
  The blocks of a round that returns: one per bot-move, for the positions 0, 1, 2, ... in
  this order, each with one observation per registered viewer before the request for the
  next bot, and nothing else. After \<open>False\<close> the last block is the one with the
  \<open>TeamWins\<close> event; after \<open>True\<close> there are as many blocks as the board has bots (when
  the round started or when it ended).
\<close>

lemma play_round_returns_blocks:
  assumes "play_round ops gt gm = (Inr c, gm')"
  shows "\<exists>steps.
           history gm' = history gm @ round_blocks (viewers gm) gt 0 steps
         \<and> length steps \<le> length (bots (universe gm))
         \<and> (if c then \<not> list_ex wins steps
                     \<and> (length (bots (universe gm)) \<le> length steps
                        \<or> length (bots (universe gm')) \<le> length steps)
            else steps \<noteq> [] \<and> wins (last steps) \<and> \<not> list_ex wins (butlast steps))"
proof -
  from assms obtain steps tail where
    sh: "round_shape gt 0 (length (bots (universe gm))) gm (Inr c) gm' steps tail"
    by (rule play_round_shape)
  then have "history gm' = history gm @ round_blocks (viewers gm) gt 0 steps
         \<and> length steps \<le> length (bots (universe gm))
         \<and> (if c then \<not> list_ex wins steps
                     \<and> (length (bots (universe gm)) \<le> length steps
                        \<or> length (bots (universe gm')) \<le> length steps)
            else steps \<noteq> [] \<and> wins (last steps) \<and> \<not> list_ex wins (butlast steps))"
    unfolding round_shape_def by (cases c) auto
  then show ?thesis by blast
qed

text \<open>
  Claim C1, for the record of what the code does. The claim gives every round one of
  two results: \<open>False\<close> when a bot-move produced a \<open>TeamWins\<close> event, \<open>True\<close> after
  every bot has moved once otherwise. A round in which a player times out has neither.
  In the small match bot 0 stays and is observed, the player of bot 1 times out, and
  the \<open>except\<close> clause raises \<open>NameError\<close>: no \<open>TeamWins\<close> event has been produced, yet
  the round does not return \<open>True\<close>, and bot 1 has not moved.
\<close>

theorem round_with_timeout_does_not_return:
  "play_round demo_ops 0 (demo_game [Inr stop, Inl PlayerTimeout]) =
     (Inl (NameError ''uni''),
      (demo_game [Inr stop, Inl PlayerTimeout])
        \<lparr>history := [GetMove 0 0 demo_universe, Produced 0 [MovementEvent 0],
                     Observe 7 0 0 demo_universe [MovementEvent 0],
                     GetMove 1 1 demo_universe]\<rparr>)
   \<and> \<not> list_ex (contains_type is_TeamWins)
         (produced (history (snd (play_round demo_ops 0
                                    (demo_game [Inr stop, Inl PlayerTimeout])))))
   \<and> universe (snd (play_round demo_ops 0 (demo_game [Inr stop, Inl PlayerTimeout])))
       = demo_universe"
  by (simp add: demo_defs round_defs upt_conv_Cons)

text \<open>
  Claim C2, for the record of what the code does. A player that times out, or that
  proposes an illegal move, makes the body of \<open>try\<close> raise; the \<open>except\<close> clause then
  raises \<open>NameError\<close>, because the module binds no name \<open>uni\<close>. In the small match bot 0
  could step east: no fallback move is applied, no \<open>TimeoutEvent\<close> is produced, no viewer
  observes anything, and the round ends with the \<open>NameError\<close>.
\<close>

theorem timeout_raises_NameError:
  "play_round demo_ops 0 (demo_game [Inl PlayerTimeout, Inr stop]) =
     (Inl (NameError ''uni''),
      (demo_game [Inl PlayerTimeout, Inr stop])\<lparr>history := [GetMove 0 0 demo_universe]\<rparr>)
   \<and> play_round demo_ops 0 (demo_game [Inr (0, 1), Inr stop]) =
     (Inl (NameError ''uni''),
      (demo_game [Inr (0, 1), Inr stop])\<lparr>history := [GetMove 0 0 demo_universe]\<rparr>)"
  by (simp add: demo_defs round_defs upt_conv_Cons)

text \<open>
  Claim C3, for the record of what the code does. A player that is disconnected makes
  the body of \<open>try\<close> raise, and the first \<open>except\<close> clause raises \<open>NameError\<close> before
  the clause for \<open>PlayerDisconnected\<close> is reached. The board is not touched, but no
  \<open>TeamWins\<close> event is produced either: the match of two teams, whose first player is
  disconnected at the first move of round 0, ends with the \<open>NameError\<close>.
\<close>

theorem disconnect_raises_NameError:
  "play demo_ops (demo_game [Inl PlayerDisconnected, Inr stop]) =
     (Inl (NameError ''uni''),
      (demo_game [Inl PlayerDisconnected, Inr stop])\<lparr>history := [GetMove 0 0 demo_universe]\<rparr>)"
  by (simp add: play_def demo_defs round_defs upt_conv_Cons)

text \<open>
  Claim C5. When the number of registered player teams differs from the number of teams
  of the universe, \<open>play\<close> raises \<open>IndexError\<close> and the game, its history included, is as
  it was: no round has run. When the numbers are equal, rounds 0, 1, ... are played, each
  from the state the round before it left: if all \<open>game_time\<close> rounds return \<open>True\<close>, \<open>play\<close>
  ends in the state after the last of them; if round \<open>k\<close> is the first that does not
  return \<open>True\<close>, \<open>play\<close> ends in the state that round left, returning normally when the
  round returned \<open>False\<close> and with the exception of the round when it raised.
\<close>

theorem play_runs_rounds:
  "(length (player_teams gm) \<noteq> length (teams (universe gm)) \<longrightarrow>
      play ops gm = (Inl IndexError, gm))
   \<and> (length (player_teams gm) = length (teams (universe gm)) \<longrightarrow>
        (\<forall>s. state_before_round ops (nat (game_time gm)) gm = Some s \<longrightarrow>
            play ops gm = (Inr (), s))
      \<and> (\<forall>k s s'. k < nat (game_time gm) \<and> state_before_round ops k gm = Some s
            \<and> play_round ops k s = (Inr False, s') \<longrightarrow> play ops gm = (Inr (), s'))
      \<and> (\<forall>k s e s'. k < nat (game_time gm) \<and> state_before_round ops k gm = Some s
            \<and> play_round ops k s = (Inl e, s') \<longrightarrow> play ops gm = (Inl e, s')))"
proof -
  have split: "k < n \<Longrightarrow> [0..<n] = [0..<k] @ (k # [Suc k..<n])" for k n :: nat
    by (metis upt_add_eq_append upt_conv_Cons le0 less_imp_le_nat le_add_diff_inverse plus_nat.add_0)
  have full: "state_before_round ops n gm = Some s \<Longrightarrow> play_loop ops [0..<n] gm = (Inr (), s)"
    for n s using play_loop_prefix[of ops n gm s "[]"] by simp
  have stop: "k < n \<Longrightarrow> state_before_round ops k gm = Some s \<Longrightarrow>
      play_round ops k s = (Inr False, s') \<Longrightarrow> play_loop ops [0..<n] gm = (Inr (), s')"
    for k n s s'
    using play_loop_prefix[of ops k gm s "k # [Suc k..<n]"] split[of k n] by simp
  have err: "k < n \<Longrightarrow> state_before_round ops k gm = Some s \<Longrightarrow>
      play_round ops k s = (Inl e, s') \<Longrightarrow> play_loop ops [0..<n] gm = (Inl e, s')"
    for k n s s' e
    using play_loop_prefix[of ops k gm s "k # [Suc k..<n]"] split[of k n] by simp
  show ?thesis
    unfolding play_def using full stop err by auto
qed

theorem play_runs_rounds_witness:
  "play demo_ops (demo_game [Inr stop]) = (Inl IndexError, demo_game [Inr stop])
   \<and> play demo_ops (demo_game [Inr east, Inr east]) =
       (Inr (), snd (play_round demo_ops 0 (demo_game [Inr east, Inr east])))
   \<and> play demo_ops ((demo_game [Inr stop, Inr stop])\<lparr>game_time := 2, history := []\<rparr>) =
       (Inr (),
        (demo_game [Inr stop, Inr stop])
          \<lparr>game_time := 2,
           history := [GetMove 0 0 demo_universe, Produced 0 [MovementEvent 0],
                       Observe 7 0 0 demo_universe [MovementEvent 0],
                       GetMove 1 1 demo_universe, Produced 1 [MovementEvent 1],
                       Observe 7 0 1 demo_universe [MovementEvent 1],
                       GetMove 0 0 demo_universe, Produced 0 [MovementEvent 0],
                       Observe 7 1 0 demo_universe [MovementEvent 0],
                       GetMove 1 1 demo_universe, Produced 1 [MovementEvent 1],
                       Observe 7 1 1 demo_universe [MovementEvent 1]]\<rparr>)"
proof -
  let ?g1 = "demo_game [Inr stop]"
  let ?g2 = "demo_game [Inr east, Inr east]"
  let ?g3 = "(demo_game [Inr stop, Inr stop])\<lparr>game_time := 2, history := []\<rparr>"
  have m1: "length (player_teams ?g1) \<noteq> length (teams (universe ?g1))"
    by (simp add: demo_game_def demo_universe_def)
  have m2: "length (player_teams ?g2) = length (teams (universe ?g2))"
    by (simp add: demo_game_def demo_universe_def)
  have m3: "length (player_teams ?g3) = length (teams (universe ?g3))"
    by (simp add: demo_game_def demo_universe_def)
  have a: "play demo_ops ?g1 = (Inl IndexError, ?g1)"
    using play_runs_rounds[of ?g1 demo_ops] m1 by blast
  have k: "0 < nat (game_time ?g2)" by (simp add: demo_game_def)
  have s0: "state_before_round demo_ops 0 ?g2 = Some ?g2" by simp
  have w: "play_round demo_ops 0 ?g2 = (Inr False, snd (play_round demo_ops 0 ?g2))"
    by (simp add: demo_round_wins)
  have b: "play demo_ops ?g2 = (Inr (), snd (play_round demo_ops 0 ?g2))"
    using play_runs_rounds[of ?g2 demo_ops] m2 k s0 w by blast
  have t: "nat (game_time ?g3) = Suc (Suc 0)" by simp
  have s2: "state_before_round demo_ops (nat (game_time ?g3)) ?g3 =
      Some ((demo_game [Inr stop, Inr stop])
          \<lparr>game_time := 2,
           history := [GetMove 0 0 demo_universe, Produced 0 [MovementEvent 0],
                       Observe 7 0 0 demo_universe [MovementEvent 0],
                       GetMove 1 1 demo_universe, Produced 1 [MovementEvent 1],
                       Observe 7 0 1 demo_universe [MovementEvent 1],
                       GetMove 0 0 demo_universe, Produced 0 [MovementEvent 0],
                       Observe 7 1 0 demo_universe [MovementEvent 0],
                       GetMove 1 1 demo_universe, Produced 1 [MovementEvent 1],
                       Observe 7 1 1 demo_universe [MovementEvent 1]]\<rparr>)"
    unfolding t by (simp add: demo_round_stays)
  have c: "play demo_ops ?g3 = (Inr (), (demo_game [Inr stop, Inr stop])
          \<lparr>game_time := 2,
           history := [GetMove 0 0 demo_universe, Produced 0 [MovementEvent 0],
                       Observe 7 0 0 demo_universe [MovementEvent 0],
                       GetMove 1 1 demo_universe, Produced 1 [MovementEvent 1],
                       Observe 7 0 1 demo_universe [MovementEvent 1],
                       GetMove 0 0 demo_universe, Produced 0 [MovementEvent 0],
                       Observe 7 1 0 demo_universe [MovementEvent 0],
                       GetMove 1 1 demo_universe, Produced 1 [MovementEvent 1],
                       Observe 7 1 1 demo_universe [MovementEvent 1]]\<rparr>)"
    using play_runs_rounds[of ?g3 demo_ops] m3 s2 by blast
  from a b c show ?thesis by blast
qed

text \<open>
  Claim C6, for the record of what the code does. The claim gives every bot-move of a
  round one broadcast to every viewer, before the next bot is resolved. In the small
  match bot 0 stays and viewer 7 observes it; then bot 1 is asked, proposes an illegal
  move, and the \<open>except\<close> clause raises \<open>NameError\<close>: the round ends with the request
  for bot 1 as its last entry, and no viewer is told anything about the move of bot 1.
  (In a round that returns, the blocks are as the claim says: lemma
  \<open>play_round_returns_blocks\<close>.)
\<close>

theorem illegal_move_is_not_broadcast:
  "play_round demo_ops 2 (demo_game [Inr stop, Inr (0, 1)]) =
     (Inl (NameError ''uni''),
      (demo_game [Inr stop, Inr (0, 1)])
        \<lparr>history := [GetMove 0 0 demo_universe, Produced 0 [MovementEvent 0],
                     Observe 7 2 0 demo_universe [MovementEvent 0],
                     GetMove 1 1 demo_universe]\<rparr>)"
  by (simp add: demo_defs round_defs upt_conv_Cons)

text \<open>
  Claim C9. The first handler removes \<open>stop\<close> from the legal moves without looking
  whether it is there. So the handler returns events only when \<open>stop\<close> is a legal move of
  the bot. When \<open>stop\<close> is not a legal move, the handler raises and changes nothing, and a
  move request that ends in a timeout or in an illegal move makes the resolver raise:
  the board is as it was before the request, no fallback move has been applied.
\<close>

theorem fallback_requires_stop:
  "(\<forall>es gm'. fallback ops i b gm = (Inr es, gm') \<longrightarrow>
       stop \<in> fst ` set (get_legal_moves ops (universe gm) (current_pos b)))
   \<and> (stop \<notin> fst ` set (get_legal_moves ops (universe gm) (current_pos b)) \<longrightarrow>
        (\<exists>e. fallback ops i b gm = (Inl e, gm))
      \<and> (\<forall>e gm1. try_body ops i b gm = (Inl e, gm1)
             \<and> (e = PlayerTimeout \<or> e = IllegalMoveException) \<longrightarrow>
           (\<exists>e'. resolve ops i b gm = (Inl e', gm1)) \<and> universe gm1 = universe gm))"
proof -
  have a: "\<forall>es gm'. fallback ops i b gm = (Inr es, gm') \<longrightarrow>
       stop \<in> fst ` set (get_legal_moves ops (universe gm) (current_pos b))"
    unfolding fallback_def
    by (auto split: sum.splits prod.splits dest!: fallback_moves_Inr_stop)
  have b: "\<exists>e. fallback ops i b g = (Inl e, g)"
    if "stop \<notin> fst ` set (get_legal_moves ops (universe g) (current_pos b))" for g
    using that unfolding fallback_def fallback_moves_def by simp
  have c: "(\<exists>e'. resolve ops i b gm = (Inl e', gm1)) \<and> universe gm1 = universe gm"
    if ns: "stop \<notin> fst ` set (get_legal_moves ops (universe gm) (current_pos b))"
      and tb: "try_body ops i b gm = (Inl e, gm1)"
      and e: "e = PlayerTimeout \<or> e = IllegalMoveException" for e gm1
  proof -
    have u: "universe gm1 = universe gm" using tb by (rule try_body_raises_universe)
    with ns b[of gm1] obtain e1 where "fallback ops i b gm1 = (Inl e1, gm1)" by auto
    then have "\<exists>e'. except_clauses ops i b e gm1 = (Inl e', gm1)"
      using e unfolding except_clauses_def by auto
    then show ?thesis using tb u by (simp add: resolve_def)
  qed
  from a b[of gm] c show ?thesis by blast
qed

theorem fallback_requires_stop_witness:
  "(\<exists>e. fallback demo_ops_no_stop 0 (bots demo_universe ! 0)
           (demo_game [Inl PlayerTimeout, Inr east]) =
         (Inl e, demo_game [Inl PlayerTimeout, Inr east]))
   \<and> (\<exists>e'. resolve demo_ops_no_stop 0 (bots demo_universe ! 0)
           (demo_game [Inl PlayerTimeout, Inr east]) =
         (Inl e', (demo_game [Inl PlayerTimeout, Inr east])
                    \<lparr>history := [GetMove 0 0 demo_universe]\<rparr>))"
proof -
  let ?g = "demo_game [Inl PlayerTimeout, Inr east]"
  let ?b = "bots demo_universe ! 0"
  have ns: "stop \<notin> fst ` set (get_legal_moves demo_ops_no_stop (universe ?g) (current_pos ?b))"
    by (simp add: demo_defs)
  have tb: "try_body demo_ops_no_stop 0 ?b ?g =
      (Inl PlayerTimeout, ?g\<lparr>history := [GetMove 0 0 demo_universe]\<rparr>)"
    by (simp add: try_body_def demo_defs Let_def)
  from fallback_requires_stop[of demo_ops_no_stop 0 ?b ?g] ns tb show ?thesis
    by blast
qed

end
